theory Spec2Isabelle
  imports Main
begin

section \<open>Errors\<close>

text \<open>
  Every exception the user-account core can raise is a value. \<open>ValueError\<close> carries its
  message; the use cases raise it for a duplicate email and for an unknown id.
  \<open>IntegrityError\<close> and \<open>InvalidRequestError\<close> are the two SQLAlchemy exceptions the
  repository can run into; the use cases do not catch them.
\<close>

datatype error =
    ValueError string
  | IntegrityError
  | InvalidRequestError
  | ResponseValidationError

type_synonym 'a result = "error + 'a"

section \<open>The User entity and the mapped class\<close>

text \<open>
  Modelled from the spec: \<^verbatim>\<open>domain/user.py\<close> is not among the sources. The entity has
  an optional id (absent until the store assigns one), a name, an email, a password
  hash, and an \<open>is_active\<close> flag that defaults to true on construction. The field \<open>id\<close>
  is written \<open>id'\<close>.
\<close>

record User =
  id' :: "int option"
  name :: string
  email :: string
  password_hash :: string
  is_active :: bool

text \<open>
  Modelled from the spec: \<^verbatim>\<open>infrastructure/models/user.py\<close> is not among the sources.
  A row of the users table has an integer primary key assigned by the store, a name, an
  email under a unique constraint, a password hash and an activity flag. An instance of
  the mapped class has the same attributes; its key is \<open>None\<close> until it is flushed.
\<close>

record UserModel =
  m_id :: "int option"
  m_name :: string
  m_email :: string
  m_password_hash :: string
  m_is_active :: bool

section \<open>The database and the SQLAlchemy session\<close>

text \<open>
  The database holds the committed rows in physical order and the last value issued by
  the primary-key sequence. A session adds the unit of work on top of a database
  connection:
  \<^item> \<open>instances\<close>: the \<open>UserModel\<close> objects the repository has constructed, by
    reference (a reference is the position in this list; the constructor is the only
    source of references);
  \<^item> \<open>persistent\<close>: the references of those objects that are persistent in this session;
  \<^item> \<open>pending\<close>: the work registered by \<open>add\<close> and \<open>merge\<close> and not yet flushed.

  The objects a query loads are kept by the session itself; the repository copies their
  attributes into a \<open>User\<close> at once and never hands them back to the session, so they
  are represented by the rows they mirror.
\<close>

type_synonym ref = nat

datatype pending_op =
    Insert ref
  | Merged UserModel

record Database =
  table :: "UserModel list"
  seq :: int

record Session = Database +
  instances :: "UserModel list"
  persistent :: "ref list"
  pending :: "pending_op list"

text \<open>
  Modelled from the spec: \<^verbatim>\<open>infrastructure/database.py\<close> (\<open>get_db\<close>) is not among the
  sources. Each request runs in a session of its own over the shared database.
\<close>

definition open_session :: "Database \<Rightarrow> Session" where
  "open_session d =
     \<lparr>table = table d, seq = seq d, instances = [], persistent = [], pending = []\<rparr>"

definition database_of :: "Session \<Rightarrow> Database" where
  "database_of s = \<lparr>table = table s, seq = seq s\<rparr>"

text \<open>\<open>UserModel(...)\<close>: a new transient object; the session does not know it.\<close>

definition new_UserModel :: "Session \<Rightarrow> UserModel \<Rightarrow> ref \<times> Session" where
  "new_UserModel s m = (length (instances s), s\<lparr>instances := instances s @ [m]\<rparr>)"

text \<open>\<open>user_model.id = v\<close>: attribute assignment on the object behind a reference.\<close>

definition set_id :: "Session \<Rightarrow> ref \<Rightarrow> int option \<Rightarrow> Session" where
  "set_id s r v = s\<lparr>instances := (instances s)[r := (instances s ! r)\<lparr>m_id := v\<rparr>]\<rparr>"

text \<open>
  \<open>Session.add\<close> registers the given object itself: it is inserted at the next flush and
  is persistent from then on.
\<close>

definition add :: "Session \<Rightarrow> ref \<Rightarrow> Session" where
  "add s r = s\<lparr>pending := pending s @ [Insert r]\<rparr>"

text \<open>
  \<open>Session.merge\<close> copies the state of the given object onto the session's own object
  for that primary key (loaded from the table, or created when no row has the key) and
  returns that object. The given object is not associated with the session; the
  repository drops the returned one.
\<close>

definition merge :: "Session \<Rightarrow> ref \<Rightarrow> Session" where
  "merge s r = s\<lparr>pending := pending s @ [Merged (instances s ! r)]\<rparr>"

definition pk_taken :: "UserModel list \<Rightarrow> int \<Rightarrow> bool" where
  "pk_taken rows k = list_ex (\<lambda>row. m_id row = Some k) rows"

definition email_taken :: "UserModel list \<Rightarrow> string \<Rightarrow> bool" where
  "email_taken rows e = list_ex (\<lambda>row. m_email row = e) rows"

definition email_taken_by_other :: "UserModel list \<Rightarrow> int \<Rightarrow> string \<Rightarrow> bool" where
  "email_taken_by_other rows k e =
     list_ex (\<lambda>row. m_id row \<noteq> Some k \<and> m_email row = e) rows"

text \<open>\<open>INSERT\<close>: the primary key and the email must be new.\<close>

definition insert_row :: "Session \<Rightarrow> UserModel \<Rightarrow> int \<Rightarrow> unit result \<times> Session" where
  "insert_row s m k =
     (if pk_taken (table s) k \<or> email_taken (table s) (m_email m)
      then (Inl IntegrityError, s)
      else (Inr (), s\<lparr>table := table s @ [m\<lparr>m_id := Some k\<rparr>]\<rparr>))"

text \<open>\<open>UPDATE ... WHERE id = k\<close>: the email must not belong to another row.\<close>

definition update_row :: "Session \<Rightarrow> UserModel \<Rightarrow> int \<Rightarrow> unit result \<times> Session" where
  "update_row s m k =
     (if email_taken_by_other (table s) k (m_email m)
      then (Inl IntegrityError, s)
      else (Inr (), s\<lparr>table := map (\<lambda>row. if m_id row = Some k then m else row) (table s)\<rparr>))"

text \<open>An object without a key takes the next value of the sequence.\<close>

definition next_key :: "Session \<Rightarrow> UserModel \<Rightarrow> int \<times> Session" where
  "next_key s m =
     (case m_id m of
        None \<Rightarrow> (seq s + 1, s\<lparr>seq := seq s + 1\<rparr>)
      | Some k \<Rightarrow> (k, s))"

text \<open>
  The flush writes the pending work in order and stops at the first constraint
  violation. An added object receives its key and becomes persistent.
\<close>

fun flush :: "pending_op list \<Rightarrow> Session \<Rightarrow> unit result \<times> Session" where
  "flush [] s = (Inr (), s)"
| "flush (Insert r # ps) s =
     (let m = instances s ! r;
          (k, s1) = next_key s m
      in case insert_row s1 m k of
           (Inl e, s2) \<Rightarrow> (Inl e, s2)
         | (Inr _, s2) \<Rightarrow>
             flush ps (s2\<lparr>instances := (instances s2)[r := m\<lparr>m_id := Some k\<rparr>],
                          persistent := persistent s2 @ [r]\<rparr>))"
| "flush (Merged m # ps) s =
     (let (k, s1) = next_key s m
      in case (if pk_taken (table s1) k then update_row s1 m k else insert_row s1 m k) of
           (Inl e, s2) \<Rightarrow> (Inl e, s2)
         | (Inr _, s2) \<Rightarrow> flush ps s2)"

text \<open>
  \<open>Session.commit\<close> flushes and commits. When the flush fails the transaction is rolled
  back: the table is as before; values taken from the sequence are not given back.
\<close>

definition commit :: "Session \<Rightarrow> unit result \<times> Session" where
  "commit s =
     (case flush (pending s) (s\<lparr>pending := []\<rparr>) of
        (Inl e, s') \<Rightarrow> (Inl e, s\<lparr>seq := seq s', pending := []\<rparr>)
      | (Inr u, s') \<Rightarrow> (Inr u, s'))"

text \<open>
  \<open>Session.refresh\<close> reloads the attributes of an object from its row. The object must
  be persistent in this session; for any other object SQLAlchemy raises
  \<open>InvalidRequestError\<close> (``Instance is not persistent within this Session'').
\<close>

definition refresh :: "Session \<Rightarrow> ref \<Rightarrow> unit result \<times> Session" where
  "refresh s r =
     (if r \<notin> set (persistent s) then (Inl InvalidRequestError, s)
      else case find (\<lambda>row. m_id row = m_id (instances s ! r)) (table s) of
             None \<Rightarrow> (Inl InvalidRequestError, s)
           | Some row \<Rightarrow> (Inr (), s\<lparr>instances := (instances s)[r := row]\<rparr>))"

section \<open>The repository\<close>

definition to_User :: "UserModel \<Rightarrow> User" where
  "to_User m =
     \<lparr>id' = m_id m, name = m_name m, email = m_email m,
      password_hash = m_password_hash m, is_active = m_is_active m\<rparr>"

text \<open>\<open>if user.id:\<close> is false for \<open>None\<close> and for \<open>0\<close>.\<close>

definition truthy :: "int option \<Rightarrow> bool" where
  "truthy v = (case v of None \<Rightarrow> False | Some k \<Rightarrow> k \<noteq> 0)"

definition save :: "Session \<Rightarrow> User \<Rightarrow> User result \<times> Session" where
  "save s user =
     (let (user_model, s1) =
            new_UserModel s
              \<lparr>m_id = None, m_name = name user, m_email = email user,
               m_password_hash = password_hash user, m_is_active = is_active user\<rparr>;
          s2 = (if truthy (id' user)
                then merge (set_id s1 user_model (id' user)) user_model
                else add s1 user_model)
      in case commit s2 of
           (Inl e, s3) \<Rightarrow> (Inl e, s3)
         | (Inr _, s3) \<Rightarrow>
             (case refresh s3 user_model of
                (Inl e, s4) \<Rightarrow> (Inl e, s4)
              | (Inr _, s4) \<Rightarrow> (Inr (to_User (instances s4 ! user_model)), s4)))"

text \<open>
  The two queries read the table; \<open>first()\<close> takes the first matching row, and a row
  that was found is always true in \<open>if user_model:\<close>. Nothing is pending when they run,
  because \<open>save\<close> commits before it returns.
\<close>

definition find_by_email :: "Session \<Rightarrow> string \<Rightarrow> User option" where
  "find_by_email s e =
     (case find (\<lambda>row. m_email row = e) (table s) of
        Some user_model \<Rightarrow> Some (to_User user_model)
      | None \<Rightarrow> None)"

definition find_by_id :: "Session \<Rightarrow> int \<Rightarrow> User option" where
  "find_by_id s user_id =
     (case find (\<lambda>row. m_id row = Some user_id) (table s) of
        Some user_model \<Rightarrow> Some (to_User user_model)
      | None \<Rightarrow> None)"

section \<open>The use cases\<close>

text \<open>
  \<^verbatim>\<open>infrastructure/security.py\<close> is not among the sources: the password hasher is a
  parameter of the use case.
\<close>

definition CreateUserUseCase_execute ::
  "(string \<Rightarrow> string) \<Rightarrow> Session \<Rightarrow> string \<Rightarrow> string \<Rightarrow> string \<Rightarrow> User result \<times> Session" where
  "CreateUserUseCase_execute get_password_hash s nm em password =
     (case find_by_email s em of
        Some _ \<Rightarrow> (Inl (ValueError ''Email already registered''), s)
      | None \<Rightarrow>
          save s \<lparr>id' = None, name = nm, email = em,
                  password_hash = get_password_hash password, is_active = True\<rparr>)"

definition DeleteUserUseCase_execute :: "Session \<Rightarrow> int \<Rightarrow> User result \<times> Session" where
  "DeleteUserUseCase_execute s user_id =
     (case find_by_id s user_id of
        None \<Rightarrow> (Inl (ValueError ''User not found''), s)
      | Some user \<Rightarrow> save s (user\<lparr>is_active := False\<rparr>))"

section \<open>The transport boundary\<close>

text \<open>
  \<open>UserResponse\<close> has the four fields \<open>id\<close>, \<open>name\<close>, \<open>email\<close> and \<open>is_active\<close>, and is
  built from the attributes of the returned \<open>User\<close> (\<open>from_attributes\<close>). The field \<open>id\<close>
  is an \<open>int\<close>, so an entity without id does not validate. \<open>EmailStr\<close> belongs to
  pydantic: its validation is a parameter that gives the address as it is exposed, or
  nothing when it rejects the address.
\<close>

record UserResponse =
  r_id :: int
  r_name :: string
  r_email :: string
  r_is_active :: bool

definition UserResponse_from_attributes ::
  "(string \<Rightarrow> string option) \<Rightarrow> User \<Rightarrow> UserResponse result" where
  "UserResponse_from_attributes validate_email user =
     (case id' user of
        None \<Rightarrow> Inl ResponseValidationError
      | Some i \<Rightarrow>
          (case validate_email (email user) of
             None \<Rightarrow> Inl ResponseValidationError
           | Some e \<Rightarrow>
               Inr \<lparr>r_id = i, r_name = name user, r_email = e, r_is_active = is_active user\<rparr>))"

text \<open>What a route exposes for the outcome of a use case: the error, or the response model.\<close>

definition response_of ::
  "(string \<Rightarrow> string option) \<Rightarrow> User result \<Rightarrow> UserResponse result" where
  "response_of validate_email r =
     (case r of
        Inl e \<Rightarrow> Inl e
      | Inr user \<Rightarrow> UserResponse_from_attributes validate_email user)"

section \<open>Requests against one database\<close>

text \<open>
  A request opens a session on the database, runs one use case and leaves the database
  as the session committed it, whether the use case returned or raised.
\<close>

datatype operation =
    CreateUser string string string
  | DeleteUser int

fun perform :: "(string \<Rightarrow> string) \<Rightarrow> Database \<Rightarrow> operation \<Rightarrow> User result \<times> Database" where
  "perform h d (CreateUser nm em pw) =
     (let (r, s) = CreateUserUseCase_execute h (open_session d) nm em pw
      in (r, database_of s))"
| "perform h d (DeleteUser user_id) =
     (let (r, s) = DeleteUserUseCase_execute (open_session d) user_id
      in (r, database_of s))"

fun run :: "(string \<Rightarrow> string) \<Rightarrow> Database \<Rightarrow> operation list \<Rightarrow> Database" where
  "run h d [] = d"
| "run h d (op # ops) = run h (snd (perform h d op)) ops"

section \<open>Well-formed stores\<close>

text \<open>
  \<open>clean\<close>: the session has no work pending and its persistent references point to
  objects that exist; every session is clean when the repository is entered.
  \<open>ids_issued\<close>: every key in the table has been issued by the sequence.
  \<open>unique_emails\<close>: the unique constraint on the email column holds.
\<close>

definition clean :: "Session \<Rightarrow> bool" where
  "clean s = (pending s = [] \<and> list_all (\<lambda>r. r < length (instances s)) (persistent s))"

definition ids_issued :: "Session \<Rightarrow> bool" where
  "ids_issued s =
     list_all (\<lambda>row. case m_id row of None \<Rightarrow> False | Some k \<Rightarrow> k \<le> seq s) (table s)"

definition unique_emails :: "Session \<Rightarrow> bool" where
  "unique_emails s = distinct (map m_email (table s))"

text \<open>The row that carries the attributes of an entity under a given key.\<close>

definition row_of :: "User \<Rightarrow> int option \<Rightarrow> UserModel" where
  "row_of u v =
     \<lparr>m_id = v, m_name = name u, m_email = email u,
      m_password_hash = password_hash u, m_is_active = is_active u\<rparr>"

text \<open>
  \<open>evolves xs ys\<close>: the table \<open>ys\<close> keeps every row of \<open>xs\<close> in its place with its key, and
  no row that was inactive in \<open>xs\<close> is active in \<open>ys\<close>.
\<close>

fun evolves :: "UserModel list \<Rightarrow> UserModel list \<Rightarrow> bool" where
  "evolves [] ys = True"
| "evolves (x # xs) [] = False"
| "evolves (x # xs) (y # ys) =
     (m_id y = m_id x \<and> (m_is_active x \<or> \<not> m_is_active y) \<and> evolves xs ys)"

section \<open>Example stores\<close>

definition alice :: UserModel where
  "alice = \<lparr>m_id = Some 1, m_name = ''Alice'', m_email = ''alice@x.com'',
            m_password_hash = ''h1'', m_is_active = True\<rparr>"

definition carol :: UserModel where
  "carol = \<lparr>m_id = Some 2, m_name = ''Carol'', m_email = ''carol@x.com'',
            m_password_hash = ''h3'', m_is_active = True\<rparr>"

definition zed :: UserModel where
  "zed = \<lparr>m_id = Some 0, m_name = ''Zed'', m_email = ''zed@x.com'',
          m_password_hash = ''h0'', m_is_active = True\<rparr>"

definition bob :: User where
  "bob = \<lparr>id' = None, name = ''Bob'', email = ''bob@x.com'',
          password_hash = ''h2'', is_active = False\<rparr>"

definition no_users :: Database where
  "no_users = \<lparr>table = [], seq = 0\<rparr>"

definition one_user :: Database where
  "one_user = \<lparr>table = [alice], seq = 1\<rparr>"

definition two_users :: Database where
  "two_users = \<lparr>table = [alice, carol], seq = 2\<rparr>"

definition user_zero :: Database where
  "user_zero = \<lparr>table = [zed], seq = 0\<rparr>"

definition retired :: Database where
  "retired = \<lparr>table = [alice\<lparr>m_is_active := False\<rparr>, carol], seq = 2\<rparr>"

definition toy_hash :: "string \<Rightarrow> string" where
  "toy_hash password = ''#'' @ password"

section \<open>Facts about the session\<close>

lemma ids_issued_fresh: "ids_issued s \<Longrightarrow> \<not> pk_taken (table s) (seq s + 1)"
  by (auto simp: ids_issued_def pk_taken_def list_all_iff list_ex_iff)

lemma find_new_row:
  "\<not> pk_taken rows k \<Longrightarrow> m_id m = Some k \<Longrightarrow>
   find (\<lambda>row. m_id row = Some k) (rows @ [m]) = Some m"
  by (induction rows) (auto simp: pk_taken_def)

lemma email_unseen: "find_by_email s em = None \<Longrightarrow> \<not> email_taken (table s) em"
  by (auto simp: find_by_email_def email_taken_def list_ex_iff find_None_iff
      split: option.splits)

lemma find_by_id_row:
  "find_by_id s k = Some u \<Longrightarrow> \<exists>row \<in> set (table s). m_id row = Some k \<and> u = to_User row"
  by (auto simp: find_by_id_def find_Some_iff split: option.splits)

lemma to_User_row_of: "to_User (row_of u v) = u\<lparr>id' := v\<rparr>"
  by (simp add: to_User_def row_of_def)

lemma clean_open_session: "clean (open_session d)"
  by (simp add: clean_def open_session_def)

text \<open>The insert path of \<open>save\<close>: the entity has no id, or the id \<open>0\<close>.\<close>

lemma save_add:
  assumes "pending s = []" "\<not> truthy (id' u)"
    "\<not> pk_taken (table s) (seq s + 1)" "\<not> email_taken (table s) (email u)"
  shows "fst (save s u) = Inr (u\<lparr>id' := Some (seq s + 1)\<rparr>)"
    and "table (snd (save s u)) = table s @ [row_of u (Some (seq s + 1))]"
    and "seq (snd (save s u)) = seq s + 1"
    and "pending (snd (save s u)) = []"
  using assms
  by (simp_all add: save_def new_UserModel_def add_def commit_def refresh_def insert_row_def
      next_key_def row_of_def to_User_def Let_def find_new_row)

text \<open>
  The update path of \<open>save\<close>: the row is overwritten and committed, and then \<open>refresh\<close> is
  given the object that \<open>merge\<close> left outside the session.
\<close>

lemma save_merge:
  assumes "clean s" "id' u = Some k" "k \<noteq> 0"
    "pk_taken (table s) k" "\<not> email_taken_by_other (table s) k (email u)"
  shows "fst (save s u) = Inl InvalidRequestError"
    and "table (snd (save s u)) =
           map (\<lambda>row. if m_id row = Some k then row_of u (Some k) else row) (table s)"
    and "seq (snd (save s u)) = seq s"
    and "pending (snd (save s u)) = []"
  using assms
  by (auto simp add: save_def new_UserModel_def merge_def set_id_def commit_def refresh_def
      update_row_def next_key_def row_of_def Let_def truthy_def clean_def list_all_iff)

lemma own_email_not_taken_by_other:
  assumes "unique_emails s" "find_by_id s k = Some u"
  shows "\<not> email_taken_by_other (table s) k (email u)"
proof
  assume "email_taken_by_other (table s) k (email u)"
  then obtain other where
    o: "other \<in> set (table s)" "m_id other \<noteq> Some k" "m_email other = email u"
    by (auto simp: email_taken_by_other_def list_ex_iff)
  from assms(2) obtain row where
    r: "row \<in> set (table s)" "m_id row = Some k" "u = to_User row"
    using find_by_id_row by blast
  from assms(1) have "inj_on m_email (set (table s))"
    by (simp add: unique_emails_def distinct_map)
  with o r have "other = row"
    by (auto simp: to_User_def dest: inj_onD)
  with o r show False by simp
qed

text \<open>
  What \<open>DeleteUserUseCase.execute\<close> does for every stored user with a non-zero id: the
  row is deactivated in the table, its other columns stay, and the call raises.
\<close>

lemma delete_existing:
  assumes "clean s" "unique_emails s" "find_by_id s k = Some u" "k \<noteq> 0"
  shows "fst (DeleteUserUseCase_execute s k) = Inl InvalidRequestError"
    and "table (snd (DeleteUserUseCase_execute s k)) =
           map (\<lambda>row. if m_id row = Some k then row_of (u\<lparr>is_active := False\<rparr>) (Some k)
                      else row) (table s)"
proof -
  from assms(3) obtain row where
    r: "row \<in> set (table s)" "m_id row = Some k" "u = to_User row"
    using find_by_id_row by blast
  then have taken: "pk_taken (table s) k" and idu: "id' (u\<lparr>is_active := False\<rparr>) = Some k"
    by (auto simp: pk_taken_def list_ex_iff to_User_def)
  have other: "\<not> email_taken_by_other (table s) k (email (u\<lparr>is_active := False\<rparr>))"
    using own_email_not_taken_by_other [OF assms(2,3)] by simp
  show "fst (DeleteUserUseCase_execute s k) = Inl InvalidRequestError"
    using save_merge(1) [OF assms(1) idu assms(4) taken other] assms(3)
    by (simp add: DeleteUserUseCase_execute_def)
  show "table (snd (DeleteUserUseCase_execute s k)) =
           map (\<lambda>row. if m_id row = Some k then row_of (u\<lparr>is_active := False\<rparr>) (Some k)
                      else row) (table s)"
    using save_merge(2) [OF assms(1) idu assms(4) taken other] assms(3)
    by (simp add: DeleteUserUseCase_execute_def)
qed

section \<open>Tables only grow and only deactivate\<close>

lemma evolves_refl: "evolves xs xs"
  by (induction xs) auto

lemma evolves_append: "evolves xs (xs @ zs)"
  by (induction xs) auto

lemma evolves_map:
  "(\<And>row. row \<in> set xs \<Longrightarrow> m_id (f row) = m_id row \<and> (m_is_active row \<or> \<not> m_is_active (f row)))
   \<Longrightarrow> evolves xs (map f xs)"
  by (induction xs) auto

lemma evolves_trans: "evolves xs ys \<Longrightarrow> evolves ys zs \<Longrightarrow> evolves xs zs"
proof (induction xs ys arbitrary: zs rule: evolves.induct)
  case (3 x xs y ys)
  then show ?case by (cases zs) auto
qed auto

lemma evolves_find:
  "evolves xs ys \<Longrightarrow> find (\<lambda>row. m_id row = Some k) xs = Some x \<Longrightarrow>
   \<exists>y. find (\<lambda>row. m_id row = Some k) ys = Some y \<and> (m_is_active x \<or> \<not> m_is_active y)"
  by (induction xs ys rule: evolves.induct) (auto split: if_splits)

lemma save_table_cases:
  assumes "pending s = []"
  shows "table (snd (save s u)) = table s
       \<or> (\<exists>k. table (snd (save s u)) = table s @ [row_of u (Some k)])
       \<or> (\<exists>k. truthy (id' u) \<and>
              table (snd (save s u)) =
                map (\<lambda>row. if m_id row = Some k then row_of u (Some k) else row) (table s))"
  using assms
  by (auto simp add: save_def new_UserModel_def add_def merge_def set_id_def commit_def
      refresh_def insert_row_def update_row_def next_key_def row_of_def Let_def truthy_def
      split: option.splits if_splits prod.splits sum.splits)

lemma save_evolves:
  assumes "pending s = []" "\<not> truthy (id' u) \<or> \<not> is_active u"
  shows "evolves (table s) (table (snd (save s u)))"
proof -
  from save_table_cases [OF assms(1), of u]
  consider "table (snd (save s u)) = table s"
    | k where "table (snd (save s u)) = table s @ [row_of u (Some k)]"
    | k where "truthy (id' u)"
        "table (snd (save s u)) =
           map (\<lambda>row. if m_id row = Some k then row_of u (Some k) else row) (table s)"
    by blast
  then show ?thesis
  proof cases
    case 1
    then show ?thesis by (simp add: evolves_refl)
  next
    case 2
    then show ?thesis by (simp add: evolves_append)
  next
    case 3
    with assms(2) have "\<not> is_active u" by simp
    then have "evolves (table s)
        (map (\<lambda>row. if m_id row = Some k then row_of u (Some k) else row) (table s))"
      by (intro evolves_map) (simp add: row_of_def)
    with 3 show ?thesis by simp
  qed
qed

lemma perform_evolves: "evolves (table d) (table (snd (perform h d op)))"
proof (cases op)
  case (CreateUser nm em pw)
  have "evolves (table (open_session d))
      (table (snd (CreateUserUseCase_execute h (open_session d) nm em pw)))"
    by (auto simp add: CreateUserUseCase_execute_def evolves_refl truthy_def
        intro!: save_evolves split: option.splits) (simp add: open_session_def)
  moreover have "table (open_session d) = table d"
    by (simp add: open_session_def)
  ultimately show ?thesis
    using CreateUser by (simp add: database_of_def split_beta)
next
  case (DeleteUser user_id)
  have "evolves (table (open_session d))
      (table (snd (DeleteUserUseCase_execute (open_session d) user_id)))"
    by (auto simp add: DeleteUserUseCase_execute_def evolves_refl
        intro!: save_evolves split: option.splits) (simp add: open_session_def)
  moreover have "table (open_session d) = table d"
    by (simp add: open_session_def)
  ultimately show ?thesis
    using DeleteUser by (simp add: database_of_def split_beta)
qed

lemma run_evolves: "evolves (table d) (table (run h d ops))"
proof (induction ops arbitrary: d)
  case Nil
  then show ?case by (simp add: evolves_refl)
next
  case (Cons op ops)
  have "evolves (table d) (table (snd (perform h d op)))"
    by (rule perform_evolves)
  moreover have "evolves (table (snd (perform h d op))) (table (run h (snd (perform h d op)) ops))"
    by (rule Cons.IH)
  ultimately show ?case
    by (simp add: evolves_trans)
qed

section \<open>Creating a user\<close>

text \<open>
  Claim C1. When no stored user has the email, \<open>CreateUserUseCase.execute\<close> succeeds: it
  returns an entity with the id the store has assigned (the next value of the
  sequence), \<open>is_active = True\<close>, the given name and email and the hash of the password,
  and that entity is the new last row of the table. The use case does not look at the
  shape of the name, the email or the password, so this holds for all strings and in
  particular for the valid ones. The session has nothing pending and the keys of the
  table have all come from the sequence.
\<close>

theorem create_user_succeeds:
  assumes "pending s = []" and "ids_issued s" and "find_by_email s em = None"
  shows "fst (CreateUserUseCase_execute h s nm em pw) =
           Inr \<lparr>id' = Some (seq s + 1), name = nm, email = em,
                password_hash = h pw, is_active = True\<rparr>
       \<and> table (snd (CreateUserUseCase_execute h s nm em pw)) =
           table s @ [\<lparr>m_id = Some (seq s + 1), m_name = nm, m_email = em,
                       m_password_hash = h pw, m_is_active = True\<rparr>]"
proof -
  let ?u = "\<lparr>id' = None, name = nm, email = em, password_hash = h pw, is_active = True\<rparr>"
  have exec: "CreateUserUseCase_execute h s nm em pw = save s ?u"
    using assms(3) by (simp add: CreateUserUseCase_execute_def)
  have nt: "\<not> truthy (id' ?u)"
    by (simp add: truthy_def)
  have pk: "\<not> pk_taken (table s) (seq s + 1)"
    using assms(2) by (rule ids_issued_fresh)
  have em: "\<not> email_taken (table s) (email ?u)"
    using email_unseen [OF assms(3)] by simp
  show ?thesis
    using save_add(1) [OF assms(1) nt pk em] save_add(2) [OF assms(1) nt pk em]
    by (simp add: exec row_of_def)
qed

theorem create_user_succeeds_witness:
  "pending (open_session no_users) = []
   \<and> ids_issued (open_session no_users)
   \<and> find_by_email (open_session no_users) ''alice@x.com'' = None
   \<and> fst (CreateUserUseCase_execute toy_hash (open_session no_users)
            ''Alice'' ''alice@x.com'' ''pw123'') =
       Inr \<lparr>id' = Some 1, name = ''Alice'', email = ''alice@x.com'',
            password_hash = ''#pw123'', is_active = True\<rparr>"
proof -
  have a: "pending (open_session no_users) = []"
    by (simp add: open_session_def)
  have b: "ids_issued (open_session no_users)"
    by (simp add: open_session_def no_users_def ids_issued_def)
  have c: "find_by_email (open_session no_users) ''alice@x.com'' = None"
    by (simp add: open_session_def no_users_def find_by_email_def)
  have "seq (open_session no_users) = 0"
    by (simp add: open_session_def no_users_def)
  with create_user_succeeds [OF a b c, of toy_hash "''Alice''" "''pw123''"] a b c
  show ?thesis
    by (simp add: toy_hash_def)
qed

text \<open>
  Claim C2. When a user with the email is stored, \<open>CreateUserUseCase.execute\<close> raises the
  \<open>ValueError\<close> ``Email already registered'' (the duplicate-email error) before any save:
  the session, and with it the table, is returned as it was.
\<close>

theorem create_user_duplicate_email:
  assumes "find_by_email s em = Some u"
  shows "CreateUserUseCase_execute h s nm em pw =
           (Inl (ValueError ''Email already registered''), s)"
  using assms by (simp add: CreateUserUseCase_execute_def)

theorem create_user_duplicate_email_witness:
  "find_by_email (open_session one_user) ''alice@x.com'' = Some (to_User alice)
   \<and> CreateUserUseCase_execute toy_hash (open_session one_user)
        ''Alice'' ''alice@x.com'' ''pw123'' =
       (Inl (ValueError ''Email already registered''), open_session one_user)"
proof -
  have a: "find_by_email (open_session one_user) ''alice@x.com'' = Some (to_User alice)"
    by (simp add: open_session_def one_user_def find_by_email_def alice_def)
  from create_user_duplicate_email [OF a] a show ?thesis
    by simp
qed

text \<open>
  A second create with the email of a create that succeeded is rejected and persists
  nothing, in a request of its own.
\<close>

lemma database_of_open_session: "database_of (open_session d) = d"
  by (simp add: database_of_def open_session_def)

lemma create_twice_rejected:
  assumes "ids_issued (open_session d)"
    and "find_by_email (open_session d) em = None"
  shows "perform h' (snd (perform h d (CreateUser nm em pw))) (CreateUser nm' em pw') =
           (Inl (ValueError ''Email already registered''),
            snd (perform h d (CreateUser nm em pw)))"
proof -
  define u where
    "u = \<lparr>id' = None, name = nm, email = em, password_hash = h pw, is_active = True\<rparr>"
  define d1 where "d1 = snd (perform h d (CreateUser nm em pw))"
  have p: "pending (open_session d) = []"
    by (simp add: open_session_def)
  have nt: "\<not> truthy (id' u)"
    by (simp add: u_def truthy_def)
  have em: "\<not> email_taken (table (open_session d)) (email u)"
    using email_unseen [OF assms(2)] by (simp add: u_def)
  have exec: "CreateUserUseCase_execute h (open_session d) nm em pw = save (open_session d) u"
    using assms(2) by (simp add: CreateUserUseCase_execute_def u_def)
  have "table d1 = table (snd (save (open_session d) u))"
    by (simp add: d1_def exec database_of_def split_beta)
  also have "\<dots> = table (open_session d) @ [row_of u (Some (seq (open_session d) + 1))]"
    by (rule save_add(2) [OF p nt ids_issued_fresh [OF assms(1)] em])
  finally have "row_of u (Some (seq (open_session d) + 1)) \<in> set (table (open_session d1))"
    by (simp add: open_session_def)
  moreover have "m_email (row_of u (Some (seq (open_session d) + 1))) = em"
    by (simp add: row_of_def u_def)
  ultimately have "find (\<lambda>row. m_email row = em) (table (open_session d1)) \<noteq> None"
    unfolding find_None_iff by blast
  then have "CreateUserUseCase_execute h' (open_session d1) nm' em pw' =
      (Inl (ValueError ''Email already registered''), open_session d1)"
    by (auto simp: CreateUserUseCase_execute_def find_by_email_def split: option.splits)
  then have "perform h' d1 (CreateUser nm' em pw') =
      (Inl (ValueError ''Email already registered''), d1)"
    by (simp add: database_of_open_session)
  then show ?thesis
    by (simp only: d1_def)
qed

section \<open>Deleting a user\<close>

text \<open>
  Claim C4. When no stored user has the id, \<open>DeleteUserUseCase.execute\<close> raises the
  \<open>ValueError\<close> ``User not found'' before any save: the session, and with it the table,
  is returned as it was.
\<close>

theorem delete_user_not_found:
  assumes "find_by_id s user_id = None"
  shows "DeleteUserUseCase_execute s user_id = (Inl (ValueError ''User not found''), s)"
  using assms by (simp add: DeleteUserUseCase_execute_def)

theorem delete_user_not_found_witness:
  "find_by_id (open_session one_user) 999 = None
   \<and> DeleteUserUseCase_execute (open_session one_user) 999 =
       (Inl (ValueError ''User not found''), open_session one_user)"
proof -
  have a: "find_by_id (open_session one_user) 999 = None"
    by (simp add: open_session_def one_user_def find_by_id_def alice_def)
  from delete_user_not_found [OF a] a show ?thesis
    by simp
qed

text \<open>
  Claim C3. Deleting the stored user \<open>1\<close>: the row is committed with
  \<open>is_active = False\<close> and its name, email and password hash as they were, but the call
  does not return the updated entity. \<open>save\<close> hands \<open>refresh\<close> the object it gave to
  \<open>merge\<close>, which is not persistent in the session, and \<open>InvalidRequestError\<close> is raised.
\<close>

theorem delete_user_raises_after_commit:
  "fst (DeleteUserUseCase_execute (open_session one_user) 1) = Inl InvalidRequestError
   \<and> table (snd (DeleteUserUseCase_execute (open_session one_user) 1)) =
       [\<lparr>m_id = Some 1, m_name = ''Alice'', m_email = ''alice@x.com'',
         m_password_hash = ''h1'', m_is_active = False\<rparr>]"
  by (simp add: DeleteUserUseCase_execute_def find_by_id_def open_session_def one_user_def
      alice_def to_User_def save_def new_UserModel_def merge_def set_id_def commit_def
      refresh_def update_row_def next_key_def truthy_def pk_taken_def
      email_taken_by_other_def Let_def)

text \<open>
  Claim C6. Deleting the stored user \<open>1\<close> twice in succession, each time in a request of
  its own: both calls raise \<open>InvalidRequestError\<close>; the user is inactive after the first
  and after the second.
\<close>

theorem delete_user_twice_raises:
  "fst (perform toy_hash one_user (DeleteUser 1)) = Inl InvalidRequestError
   \<and> fst (perform toy_hash (snd (perform toy_hash one_user (DeleteUser 1))) (DeleteUser 1)) =
       Inl InvalidRequestError
   \<and> table (run toy_hash one_user [DeleteUser 1, DeleteUser 1]) =
       [\<lparr>m_id = Some 1, m_name = ''Alice'', m_email = ''alice@x.com'',
         m_password_hash = ''h1'', m_is_active = False\<rparr>]"
  by (simp add: DeleteUserUseCase_execute_def find_by_id_def open_session_def one_user_def
      database_of_def alice_def to_User_def save_def new_UserModel_def merge_def set_id_def
      commit_def refresh_def update_row_def next_key_def truthy_def pk_taken_def
      email_taken_by_other_def Let_def)

section \<open>The update path of save\<close>

text \<open>
  Claim C5, as stated, fails. The stored user \<open>1\<close> is Alice; saving an entity with id
  \<open>1\<close> and other values in every field leaves a row that has the incoming name, email,
  password hash and activity flag: the whole row is overwritten from the entity.
\<close>

theorem save_overwrites_stored_row:
  "find_by_id (open_session one_user) 1 =
     Some \<lparr>id' = Some 1, name = ''Alice'', email = ''alice@x.com'',
           password_hash = ''h1'', is_active = True\<rparr>
   \<and> find_by_id (snd (save (open_session one_user) (bob\<lparr>id' := Some 1\<rparr>))) 1 =
     Some \<lparr>id' = Some 1, name = ''Bob'', email = ''bob@x.com'',
           password_hash = ''h2'', is_active = False\<rparr>"
  by (simp add: find_by_id_def open_session_def one_user_def bob_def
      alice_def to_User_def save_def new_UserModel_def merge_def set_id_def commit_def
      refresh_def update_row_def next_key_def truthy_def pk_taken_def
      email_taken_by_other_def Let_def)

text \<open>
  Claim C5, amended. When \<open>save\<close> is given an entity whose id is present and not \<open>0\<close>,
  a row with that id is stored and the email of the entity belongs to no other row,
  then the committed table has, in place of that row, the row built from the incoming
  entity (its name, email, password hash and activity flag under the same id), and
  every other row as it was.
\<close>

theorem save_update_overwrites_row:
  assumes "clean s" and "id' u = Some k" and "k \<noteq> 0"
    and "pk_taken (table s) k" and "\<not> email_taken_by_other (table s) k (email u)"
  shows "table (snd (save s u)) =
           map (\<lambda>row. if m_id row = Some k then row_of u (Some k) else row) (table s)"
  using assms by (rule save_merge(2))

theorem save_update_overwrites_row_witness:
  "clean (open_session two_users)
   \<and> id' (bob\<lparr>id' := Some 2\<rparr>) = Some 2 \<and> (2::int) \<noteq> 0
   \<and> pk_taken (table (open_session two_users)) 2
   \<and> \<not> email_taken_by_other (table (open_session two_users)) 2 (email (bob\<lparr>id' := Some 2\<rparr>))
   \<and> table (snd (save (open_session two_users) (bob\<lparr>id' := Some 2\<rparr>))) =
       [alice, \<lparr>m_id = Some 2, m_name = ''Bob'', m_email = ''bob@x.com'',
                m_password_hash = ''h2'', m_is_active = False\<rparr>]"
proof -
  have a: "clean (open_session two_users)"
    by (rule clean_open_session)
  have b: "id' (bob\<lparr>id' := Some 2\<rparr>) = Some 2"
    by simp
  have c: "(2::int) \<noteq> 0"
    by simp
  have d: "pk_taken (table (open_session two_users)) 2"
    by (simp add: open_session_def two_users_def pk_taken_def alice_def carol_def)
  have e: "\<not> email_taken_by_other (table (open_session two_users)) 2
             (email (bob\<lparr>id' := Some 2\<rparr>))"
    by (simp add: open_session_def two_users_def email_taken_by_other_def alice_def
        carol_def bob_def)
  have t: "table (open_session two_users) = [alice, carol]"
    by (simp add: open_session_def two_users_def)
  have "map (\<lambda>row. if m_id row = Some 2 then row_of (bob\<lparr>id' := Some 2\<rparr>) (Some 2) else row)
          [alice, carol] =
        [alice, \<lparr>m_id = Some 2, m_name = ''Bob'', m_email = ''bob@x.com'',
                 m_password_hash = ''h2'', m_is_active = False\<rparr>]"
    by (simp add: alice_def carol_def row_of_def bob_def)
  with save_update_overwrites_row [OF a b c d e] t a b d e show ?thesis
    by simp
qed

section \<open>Save and find\<close>

text \<open>
  Claim C7, as stated, fails. Saving a new entity whose email is the email of a stored
  user violates the unique constraint: \<open>save\<close> raises \<open>IntegrityError\<close>, no id is
  returned, and the table is as before.
\<close>

theorem save_duplicate_email_raises:
  "fst (save (open_session one_user) (bob\<lparr>email := ''alice@x.com''\<rparr>)) = Inl IntegrityError
   \<and> table (snd (save (open_session one_user) (bob\<lparr>email := ''alice@x.com''\<rparr>))) = [alice]"
  by (simp add: open_session_def one_user_def bob_def alice_def save_def new_UserModel_def
      add_def commit_def insert_row_def next_key_def truthy_def pk_taken_def
      email_taken_def Let_def)

text \<open>
  Claim C7, amended. For every entity whose id is absent or \<open>0\<close> and whose email no
  stored user has, in a store whose keys have all come from the sequence, \<open>save\<close>
  returns the entity with the assigned id and every other field as given, and
  \<open>find_by_id\<close> with the returned id yields that same record: name, email, activity flag
  and password hash are exactly the saved ones.
\<close>

theorem save_new_user_round_trip:
  assumes "pending s = []" and "ids_issued s"
    and "\<not> truthy (id' u)" and "\<not> email_taken (table s) (email u)"
  shows "fst (save s u) = Inr (u\<lparr>id' := Some (seq s + 1)\<rparr>)
       \<and> find_by_id (snd (save s u)) (seq s + 1) = Some (u\<lparr>id' := Some (seq s + 1)\<rparr>)"
proof -
  have pk: "\<not> pk_taken (table s) (seq s + 1)"
    using assms(2) by (rule ids_issued_fresh)
  have "find (\<lambda>row. m_id row = Some (seq s + 1)) (table (snd (save s u))) =
      Some (row_of u (Some (seq s + 1)))"
    using save_add(2) [OF assms(1) assms(3) pk assms(4)] find_new_row [OF pk]
    by (simp add: row_of_def)
  then have "find_by_id (snd (save s u)) (seq s + 1) = Some (u\<lparr>id' := Some (seq s + 1)\<rparr>)"
    by (simp add: find_by_id_def to_User_row_of)
  with save_add(1) [OF assms(1) assms(3) pk assms(4)] show ?thesis
    by simp
qed

theorem save_new_user_round_trip_witness:
  "pending (open_session one_user) = []
   \<and> ids_issued (open_session one_user)
   \<and> \<not> truthy (id' bob)
   \<and> \<not> email_taken (table (open_session one_user)) (email bob)
   \<and> fst (save (open_session one_user) bob) = Inr (bob\<lparr>id' := Some 2\<rparr>)
   \<and> find_by_id (snd (save (open_session one_user) bob)) 2 = Some (bob\<lparr>id' := Some 2\<rparr>)"
proof -
  have a: "pending (open_session one_user) = []"
    by (simp add: open_session_def)
  have b: "ids_issued (open_session one_user)"
    by (simp add: open_session_def one_user_def ids_issued_def alice_def)
  have c: "\<not> truthy (id' bob)"
    by (simp add: bob_def truthy_def)
  have d: "\<not> email_taken (table (open_session one_user)) (email bob)"
    by (simp add: open_session_def one_user_def email_taken_def alice_def bob_def)
  have "seq (open_session one_user) + 1 = 2"
    by (simp add: open_session_def one_user_def)
  with save_new_user_round_trip [OF a b c d] a b c d show ?thesis
    by simp
qed

text \<open>
  Claim C10. \<open>save\<close> tests the truth value of the id: an entity with id \<open>0\<close> is saved
  exactly as the same entity without id. On a session with nothing pending, keys issued
  by the sequence and an email no stored user has, the entity is inserted as a new last
  row under the next key of the sequence; every stored row, a row with id \<open>0\<close>
  included, stays as it was.
\<close>

theorem save_id_zero_inserts:
  assumes "id' u = Some 0" and "pending s = []" and "ids_issued s"
    and "\<not> email_taken (table s) (email u)"
  shows "save s u = save s (u\<lparr>id' := None\<rparr>)
       \<and> fst (save s u) = Inr (u\<lparr>id' := Some (seq s + 1)\<rparr>)
       \<and> table (snd (save s u)) = table s @ [row_of u (Some (seq s + 1))]"
proof -
  have nt: "\<not> truthy (id' u)"
    using assms(1) by (simp add: truthy_def)
  have pk: "\<not> pk_taken (table s) (seq s + 1)"
    using assms(3) by (rule ids_issued_fresh)
  have "save s u = save s (u\<lparr>id' := None\<rparr>)"
    using assms(1) by (simp add: save_def truthy_def)
  with save_add(1) [OF assms(2) nt pk assms(4)] save_add(2) [OF assms(2) nt pk assms(4)]
  show ?thesis
    by simp
qed

theorem save_id_zero_inserts_witness:
  "id' (bob\<lparr>id' := Some 0\<rparr>) = Some 0
   \<and> pending (open_session user_zero) = []
   \<and> ids_issued (open_session user_zero)
   \<and> \<not> email_taken (table (open_session user_zero)) (email (bob\<lparr>id' := Some 0\<rparr>))
   \<and> fst (save (open_session user_zero) (bob\<lparr>id' := Some 0\<rparr>)) = Inr (bob\<lparr>id' := Some 1\<rparr>)
   \<and> table (snd (save (open_session user_zero) (bob\<lparr>id' := Some 0\<rparr>))) =
       [zed, \<lparr>m_id = Some 1, m_name = ''Bob'', m_email = ''bob@x.com'',
              m_password_hash = ''h2'', m_is_active = False\<rparr>]"
proof -
  have a: "id' (bob\<lparr>id' := Some 0\<rparr>) = Some 0"
    by simp
  have b: "pending (open_session user_zero) = []"
    by (simp add: open_session_def)
  have c: "ids_issued (open_session user_zero)"
    by (simp add: open_session_def user_zero_def ids_issued_def zed_def)
  have d: "\<not> email_taken (table (open_session user_zero)) (email (bob\<lparr>id' := Some 0\<rparr>))"
    by (simp add: open_session_def user_zero_def email_taken_def zed_def bob_def)
  have e: "seq (open_session user_zero) + 1 = 1" "table (open_session user_zero) = [zed]"
    by (simp_all add: open_session_def user_zero_def)
  have f: "row_of (bob\<lparr>id' := Some 0\<rparr>) (Some 1) =
      \<lparr>m_id = Some 1, m_name = ''Bob'', m_email = ''bob@x.com'',
       m_password_hash = ''h2'', m_is_active = False\<rparr>"
    by (simp add: row_of_def bob_def)
  note r = save_id_zero_inserts [OF a b c d, THEN conjunct2]
  from r a b c d e f show ?thesis
    by simp
qed

section \<open>Sequences of requests\<close>

text \<open>
  Claim C8. Take any database and any sequence of create and delete requests, each run
  in a session of its own. A user that is stored under an id before the sequence is
  stored under that id after it (no row is removed), and if the user was inactive
  before, it is inactive after (no row becomes active again). Since the database and
  the sequence are arbitrary, this covers every pair of moments of every run.
\<close>

theorem stored_users_stay_and_stay_inactive:
  assumes "find_by_id (open_session d) k = Some u"
  shows "\<exists>u'. find_by_id (open_session (run h d ops)) k = Some u'
             \<and> (\<not> is_active u \<longrightarrow> \<not> is_active u')"
proof -
  from assms obtain x where
    x: "find (\<lambda>row. m_id row = Some k) (table d) = Some x" "u = to_User x"
    by (auto simp: find_by_id_def open_session_def split: option.splits)
  from evolves_find [OF run_evolves x(1), of h ops] obtain y where
    y: "find (\<lambda>row. m_id row = Some k) (table (run h d ops)) = Some y"
       "m_is_active x \<or> \<not> m_is_active y"
    by blast
  have "find_by_id (open_session (run h d ops)) k = Some (to_User y)"
    using y(1) by (simp add: find_by_id_def open_session_def)
  moreover have "\<not> is_active u \<longrightarrow> \<not> is_active (to_User y)"
    using y(2) x(2) by (auto simp: to_User_def)
  ultimately show ?thesis
    by blast
qed

theorem stored_users_stay_and_stay_inactive_witness:
  "find_by_id (open_session retired) 1 = Some (to_User (alice\<lparr>m_is_active := False\<rparr>))
   \<and> \<not> is_active (to_User (alice\<lparr>m_is_active := False\<rparr>))
   \<and> (\<exists>u'. find_by_id (open_session (run toy_hash retired
               [CreateUser ''Alice'' ''alice@x.com'' ''pw123'', DeleteUser 1,
                CreateUser ''Bob'' ''bob@x.com'' ''pw456'', DeleteUser 2])) 1 = Some u'
            \<and> \<not> is_active u')"
proof -
  have a: "find_by_id (open_session retired) 1 = Some (to_User (alice\<lparr>m_is_active := False\<rparr>))"
    by (simp add: find_by_id_def open_session_def retired_def alice_def)
  have b: "\<not> is_active (to_User (alice\<lparr>m_is_active := False\<rparr>))"
    by (simp add: to_User_def)
  from stored_users_stay_and_stay_inactive [OF a] a b show ?thesis
    by blast
qed

section \<open>The response model\<close>

text \<open>
  Claim C9. The response built from a user has the fields id, name, email and
  \<open>is_active\<close> and does not depend on the password hash: replacing the hash of the user
  by any other value gives the same response. Through the create use case, what is
  exposed for a request depends neither on the password nor on the hasher.
\<close>

theorem response_hides_password_hash:
  "UserResponse_from_attributes v (u\<lparr>password_hash := ph\<rparr>) = UserResponse_from_attributes v u
   \<and> response_of v (fst (perform h1 d (CreateUser nm em pw1))) =
     response_of v (fst (perform h2 d (CreateUser nm em pw2)))"
proof
  show "UserResponse_from_attributes v (u\<lparr>password_hash := ph\<rparr>) =
      UserResponse_from_attributes v u"
    by (simp add: UserResponse_from_attributes_def split: option.splits)
next
  have "response_of v (fst (CreateUserUseCase_execute h1 (open_session d) nm em pw1)) =
      response_of v (fst (CreateUserUseCase_execute h2 (open_session d) nm em pw2))"
    by (simp add: CreateUserUseCase_execute_def response_of_def
        UserResponse_from_attributes_def open_session_def save_def new_UserModel_def add_def
        commit_def refresh_def insert_row_def next_key_def truthy_def to_User_def Let_def
        find_new_row
        split: option.splits)
  then show "response_of v (fst (perform h1 d (CreateUser nm em pw1))) =
      response_of v (fst (perform h2 d (CreateUser nm em pw2)))"
    by (simp add: split_beta)
qed

theorem response_hides_password_hash_witness:
  "UserResponse_from_attributes Some (to_User alice) =
     Inr \<lparr>r_id = 1, r_name = ''Alice'', r_email = ''alice@x.com'', r_is_active = True\<rparr>
   \<and> UserResponse_from_attributes Some ((to_User alice)\<lparr>password_hash := ''other''\<rparr>) =
     Inr \<lparr>r_id = 1, r_name = ''Alice'', r_email = ''alice@x.com'', r_is_active = True\<rparr>"
proof -
  have "UserResponse_from_attributes Some (to_User alice) =
      Inr \<lparr>r_id = 1, r_name = ''Alice'', r_email = ''alice@x.com'', r_is_active = True\<rparr>"
    by (simp add: UserResponse_from_attributes_def to_User_def alice_def)
  with response_hides_password_hash
      [where v = Some and u = "to_User alice" and ph = "''other''"] show ?thesis
    by simp
qed

end
